theory Spec2Isabelle
  imports Main "HOL-Library.Sublist"
begin

section \<open>The content script of the chat widget (browser\_extension/content.js)\<close>

text \<open>
  The development embeds the content script that injects the floating chat widget: the
  detection of the signed-in user from the host page, the drag handlers, the message
  channel, the renderer and the paste handler. Every function of the script that the
  theorems below speak about is a HOL function of the same name; the script's global
  \<^verbatim>\<open>state\<close>, the extension storage and the parts of the widget's DOM that the
  script writes are one record, passed in and returned. What the browser answers (the
  queries of the host page, the sizes of the window, the outcome of a request) comes in
  with the event that needs it. The construction of the widget, the replay of a stored
  session into it when a page loads and \<^verbatim>\<open>formatBotMessage\<close> are not embedded; a
  page starts in the world that the construction leaves.
\<close>

subsection \<open>JavaScript strings\<close>

text \<open>
  A string is the list of its code units. The model covers the code units below 256
  (Latin-1), which is what \<^typ>\<open>char\<close> holds: on these \<^verbatim>\<open>toLowerCase\<close>, the
  white space removed by \<^verbatim>\<open>trim\<close> and the case folding of a regular expression
  with the \<^verbatim>\<open>i\<close> flag are completely determined, and \<^verbatim>\<open>length\<close> is the length
  of the list.
\<close>

definition toLowerCase_char :: "char \<Rightarrow> char" where
  "toLowerCase_char c =
     (let n = (of_char c :: nat)
      in if (65 \<le> n \<and> n \<le> 90) \<or> (192 \<le> n \<and> n \<le> 222 \<and> n \<noteq> 215)
         then char_of (n + 32) else c)"

definition toLowerCase :: "string \<Rightarrow> string" where
  "toLowerCase s = map toLowerCase_char s"

text \<open>White space and line terminators of ECMAScript among the Latin-1 code units:
  TAB, LF, VT, FF, CR, SP and NBSP.\<close>

definition isWhiteSpace :: "char \<Rightarrow> bool" where
  "isWhiteSpace c = (of_char c \<in> {9, 10, 11, 12, 13, 32, 160 :: nat})"

definition trim :: "string \<Rightarrow> string" where
  "trim s = rev (dropWhile isWhiteSpace (rev (dropWhile isWhiteSpace s)))"

text \<open>\<^verbatim>\<open>s.includes(sub)\<close>: \<open>sub\<close> occurs in \<open>s\<close> as a contiguous substring.\<close>

fun js_includes :: "string \<Rightarrow> string \<Rightarrow> bool" where
  "js_includes [] sub = (sub = [])"
| "js_includes (c # cs) sub = (prefix sub (c # cs) \<or> js_includes cs sub)"

text \<open>\<^verbatim>\<open>s.split(d)\<close> for a separator of one code unit, and \<^verbatim>\<open>ws.join(sep)\<close>.\<close>

fun split_on :: "char \<Rightarrow> string \<Rightarrow> string list" where
  "split_on d [] = [[]]"
| "split_on d (c # cs) =
     (if c = d then [] # split_on d cs
      else (case split_on d cs of
              w # ws \<Rightarrow> (c # w) # ws
            | [] \<Rightarrow> [[c]]))"

fun join :: "string \<Rightarrow> string list \<Rightarrow> string" where
  "join sep [] = []"
| "join sep [w] = w"
| "join sep (w # ws) = w @ sep @ join sep ws"

text \<open>A value used as a condition: \<^verbatim>\<open>null\<close>, \<^verbatim>\<open>undefined\<close> and the empty string
  are falsy, every other string is truthy.\<close>

definition truthy :: "string option \<Rightarrow> bool" where
  "truthy v = (case v of None \<Rightarrow> False | Some s \<Rightarrow> s \<noteq> [])"

subsection \<open>cleanName\<close>

text \<open>
  \<^verbatim>\<open>text.replace(/welcome|hello|hi|mr\.|ms\.|user:/gi, '').trim()\<close>.
  The global replacement scans the text from the left. At each position the alternatives
  are tried in the order written, each against the case-folded text; the first one that
  matches is deleted and the scan goes on behind it, otherwise the code unit is kept.
  Every alternative is a literal of lower-case ASCII letters and punctuation, which only
  its own two letter cases fold to.
\<close>

definition tokens :: "string list" where
  "tokens = [''welcome'', ''hello'', ''hi'', ''mr.'', ''ms.'', ''user:'']"

definition matchAt :: "string \<Rightarrow> string option" where
  "matchAt s = find (\<lambda>t. prefix t (toLowerCase s)) tokens"

fun replaceTokens :: "string \<Rightarrow> string" where
  "replaceTokens [] = []"
| "replaceTokens (c # cs) =
     (case matchAt (c # cs) of
        Some t \<Rightarrow> replaceTokens (drop (length t - 1) cs)
      | None \<Rightarrow> c # replaceTokens cs)"

definition cleanName :: "string \<Rightarrow> string" where
  "cleanName txt = trim (replaceTokens txt)"

text \<open>Two occurrences of alternatives overlap when a proper, non-empty end of the first
  is comparable with the second.\<close>

definition overlapping :: "string \<Rightarrow> string \<Rightarrow> bool" where
  "overlapping t u =
     list_ex (\<lambda>k. prefix (drop k t) u \<or> prefix u (drop k t)) [1..<length t]"

subsection \<open>Session state, storage and the widget\<close>

datatype css = Px int | Auto | Unset

record position =
  pos_top :: css
  pos_left :: css
  pos_bottom :: css
  pos_right :: css

datatype sender = User | Bot

record message =
  msg_sender :: sender
  msg_text :: string
  msg_image :: "string option"

record chat_state =
  isOpen :: bool
  messages :: "message list"
  user :: "string option"
  position :: position

text \<open>
  Glyphs outside Latin-1 that the templates contain are named, not spelled. A piece of
  markup assigned to \<^verbatim>\<open>innerHTML\<close> is a list of fragments: literal markup, a glyph,
  or the result of \<^verbatim>\<open>formatBotMessage\<close> on a text, which is kept symbolic.
\<close>

datatype glyph = BustGlyph | RobotGlyph | WarningGlyph

datatype fragment = Html string | Symbol glyph | FormatBot string

datatype child = ContentDiv "fragment list" | AvatarDiv glyph

record dom_entry =
  entryClass :: string
  children :: "child list"

text \<open>One observer with its timer, as created by a call of \<^verbatim>\<open>startUserDetection\<close>
  that did not resolve at once.\<close>

record detector =
  connected :: bool
  timerArmed :: bool

record world =
  state :: chat_state
  storage :: "chat_state option"
  pendingImage :: "string option"
  messagesDOM :: "dom_entry list"
  userDisplay :: string
  inputValue :: string
  imagePreview :: "string option"
  typingShown :: bool
  widgetHidden :: bool
  widgetStyle :: position
  bodyUserSelectNone :: bool
  isDragging :: bool
  dragListeners :: bool
  startX :: int
  startY :: int
  initialLeft :: int
  initialTop :: int
  detectors :: "detector list"

definition initialState :: chat_state where
  "initialState =
     \<lparr>isOpen = False, messages = [], user = None,
      position = \<lparr>pos_top = Auto, pos_left = Auto, pos_bottom = Px 20, pos_right = Px 20\<rparr>\<rparr>"

text \<open>The page right after the widget has been created, with nothing stored.\<close>

definition initialWorld :: world where
  "initialWorld =
     \<lparr>state = initialState, storage = None, pendingImage = None, messagesDOM = [],
      userDisplay = ''Online'', inputValue = [], imagePreview = None, typingShown = False,
      widgetHidden = True,
      widgetStyle = \<lparr>pos_top = Unset, pos_left = Unset, pos_bottom = Unset, pos_right = Unset\<rparr>,
      bodyUserSelectNone = False, isDragging = False, dragListeners = False,
      startX = 0, startY = 0, initialLeft = 0, initialTop = 0, detectors = []\<rparr>"

definition loadState :: "world \<Rightarrow> world" where
  "loadState w = (case storage w of Some s \<Rightarrow> w\<lparr>state := s\<rparr> | None \<Rightarrow> w)"

definition saveState :: "world \<Rightarrow> world" where
  "saveState w = w\<lparr>storage := Some (state w)\<rparr>"

subsection \<open>handleLogin\<close>

text \<open>
  \<^verbatim>\<open>handleLogin(nameInput, isAuto)\<close>: the second argument is not read by the body.
  The login view already carries the class that the body adds to it.
\<close>

definition handleLogin :: "string \<Rightarrow> world \<Rightarrow> world" where
  "handleLogin nameInput w =
     (let name = (if nameInput \<noteq> [] then nameInput else ''Guest'')
      in if name \<noteq> []
         then saveState (w\<lparr>state := (state w)\<lparr>user := Some name\<rparr>, userDisplay := name\<rparr>)
         else w)"

subsection \<open>The host page as the detector sees it\<close>

text \<open>
  The answers of the DOM are the input. \<open>querySelector p sel\<close> is the
  \<^verbatim>\<open>innerText\<close> of the element that \<^verbatim>\<open>document.querySelector(sel)\<close> returns, if
  there is one. \<open>iconButtons p\<close> are the elements of
  \<^verbatim>\<open>querySelectorAll('i, svg, img, a, button, .fa, .fas, .material-icons')\<close> in document
  order, taken as HTML elements: their \<^verbatim>\<open>innerText\<close>, \<^verbatim>\<open>title\<close> and
  \<^verbatim>\<open>className\<close> are strings, and an absent \<^verbatim>\<open>aria-label\<close> is the empty string
  (both are falsy). \<open>ancestors b\<close> is the chain \<^verbatim>\<open>parentElement\<close>, its parent, and so on;
  each ancestor answers what its clone does with a selector: \<^verbatim>\<open>querySelector\<close> raises
  \<^verbatim>\<open>SyntaxError\<close> on a selector that does not parse, otherwise the first match, if
  any, is removed and the answer is the \<^verbatim>\<open>innerText\<close> of what remains.
\<close>

datatype js_error = SyntaxError

record button =
  innerText :: string
  title :: string
  ariaLabel :: string
  className :: string
  ancestors :: "(string \<Rightarrow> js_error + string) list"

record page =
  querySelector :: "string \<Rightarrow> string option"
  iconButtons :: "button list"

subsection \<open>detectUserOnPage: the selector pass\<close>

definition selectors :: "string list" where
  \<open>selectors =
     [''#lblUserID'', ''#lblUserName'', ''#userName'', ''.user-name'', ''.profile-name'',
      ''span[id*="user"]'', ''span[class*="user"]'', ''#welcomeUser'',
      ''.header-user'', ''.login-name'', ''a[href*="profile"]'', ''.logged-in-user'']\<close>

fun selectorPass :: "(string \<Rightarrow> string option) \<Rightarrow> string list \<Rightarrow> string option" where
  "selectorPass q [] = None"
| "selectorPass q (selector # rest) =
     (case q selector of
        Some elText \<Rightarrow>
          if length (trim elText) > 2
          then (let name = cleanName elText
                in if name \<noteq> [] \<and> \<not> js_includes name ''Log''
                   then Some name
                   else selectorPass q rest)
          else selectorPass q rest
      | None \<Rightarrow> selectorPass q rest)"

subsection \<open>detectUserOnPage: the heuristic pass\<close>

definition buttonText :: "button \<Rightarrow> string" where
  "buttonText btn =
     (if innerText btn \<noteq> [] then innerText btn
      else if title btn \<noteq> [] then title btn
      else if ariaLabel btn \<noteq> [] then ariaLabel btn
      else [])"

definition isLogout :: "button \<Rightarrow> bool" where
  "isLogout btn =
     (let txt = buttonText btn; classList = toLowerCase (className btn)
      in js_includes (toLowerCase txt) ''logout'' \<or>
         js_includes (toLowerCase txt) ''sign out'' \<or>
         js_includes classList ''power'' \<or>
         js_includes classList ''logout'' \<or>
         js_includes classList ''sign-out'')"

text \<open>\<^verbatim>\<open>'.' + btn.className.split(' ').join('.')\<close>\<close>

definition buttonSelector :: "button \<Rightarrow> string" where
  "buttonSelector btn = ''.'' @ join ''.'' (split_on (CHR '' '') (className btn))"

text \<open>The noise filter on a cleaned line; the regular expression
  \<^verbatim>\<open>/^(home|help|admin|user)$/\<close> is matched against the whole lower-cased line.\<close>

definition plausibleName :: "string \<Rightarrow> bool" where
  "plausibleName cleaned =
     (cleaned \<noteq> [] \<and>
      length cleaned < 30 \<and>
      \<not> js_includes (toLowerCase cleaned) ''setting'' \<and>
      \<not> js_includes (toLowerCase cleaned) ''english'' \<and>
      \<not> js_includes (toLowerCase cleaned) ''tamil'' \<and>
      toLowerCase cleaned \<notin> set [''home'', ''help'', ''admin'', ''user''])"

definition containerLines :: "string \<Rightarrow> string list" where
  "containerLines cloneText =
     filter (\<lambda>l. length l > 2) (map trim (split_on (CHR 0x0A) (trim cloneText)))"

definition scanLines :: "string list \<Rightarrow> string option" where
  "scanLines ls = find plausibleName (map cleanName ls)"

fun scanContainers ::
  "string \<Rightarrow> (string \<Rightarrow> js_error + string) list \<Rightarrow> js_error + string option" where
  "scanContainers sel [] = Inr None"
| "scanContainers sel (container # up) =
     (case container sel of
        Inl e \<Rightarrow> Inl e
      | Inr cloneText \<Rightarrow>
          (case scanLines (containerLines cloneText) of
             Some cleaned \<Rightarrow> Inr (Some cleaned)
           | None \<Rightarrow> scanContainers sel up))"

fun heuristicPass :: "button list \<Rightarrow> js_error + string option" where
  "heuristicPass [] = Inr None"
| "heuristicPass (btn # rest) =
     (if isLogout btn
      then (case scanContainers (buttonSelector btn) (take 3 (ancestors btn)) of
              Inl e \<Rightarrow> Inl e
            | Inr (Some cleaned) \<Rightarrow> Inr (Some cleaned)
            | Inr None \<Rightarrow> heuristicPass rest)
      else heuristicPass rest)"

subsection \<open>detectUserOnPage and startUserDetection\<close>

text \<open>A function that may raise returns the error, if any, beside the world it leaves.\<close>

definition detectUserOnPage :: "page \<Rightarrow> world \<Rightarrow> (js_error + bool) \<times> world" where
  "detectUserOnPage p w =
     (case selectorPass (querySelector p) selectors of
        Some name \<Rightarrow> (Inr True, handleLogin name w)
      | None \<Rightarrow>
          (case heuristicPass (iconButtons p) of
             Inl e \<Rightarrow> (Inl e, w)
           | Inr (Some cleaned) \<Rightarrow> (Inr True, handleLogin cleaned w)
           | Inr None \<Rightarrow> (Inr False, w)))"

definition startUserDetection :: "page \<Rightarrow> world \<Rightarrow> js_error option \<times> world" where
  "startUserDetection p w =
     (case detectUserOnPage p w of
        (Inl e, w') \<Rightarrow> (Some e, w')
      | (Inr True, w') \<Rightarrow> (None, w')
      | (Inr False, w') \<Rightarrow>
          (None, w'\<lparr>detectors := detectors w' @ [\<lparr>connected = True, timerArmed = True\<rparr>]\<rparr>))"

definition disconnect :: "nat \<Rightarrow> world \<Rightarrow> world" where
  "disconnect i w =
     (if i < length (detectors w)
      then w\<lparr>detectors := (detectors w)[i := (detectors w ! i)\<lparr>connected := False\<rparr>]\<rparr>
      else w)"

text \<open>The callback of the \<open>i\<close>-th observer, delivered after a mutation that left the
  page as \<open>p\<close>. An error raised in the callback is reported by the browser and the
  observer stays connected.\<close>

definition observerCallback :: "nat \<Rightarrow> page \<Rightarrow> world \<Rightarrow> world" where
  "observerCallback i p w =
     (if truthy (user (state w)) then disconnect i w
      else (case detectUserOnPage p w of
              (Inr True, w') \<Rightarrow> disconnect i w'
            | (_, w') \<Rightarrow> w'))"

fun notifyObservers :: "nat list \<Rightarrow> page \<Rightarrow> world \<Rightarrow> world" where
  "notifyObservers [] p w = w"
| "notifyObservers (i # is) p w =
     notifyObservers is p
       (if connected (detectors w ! i) then observerCallback i p w else w)"

definition mutation :: "page \<Rightarrow> world \<Rightarrow> world" where
  "mutation p w = notifyObservers [0..<length (detectors w)] p w"

text \<open>The timer of the \<open>i\<close>-th detector, 5000 ms after it was set; it fires once.\<close>

definition timerFires :: "nat \<Rightarrow> world \<Rightarrow> world" where
  "timerFires i w =
     (if i < length (detectors w) \<and> timerArmed (detectors w ! i)
      then (let w1 = w\<lparr>detectors := (detectors w)[i := (detectors w ! i)\<lparr>timerArmed := False\<rparr>]\<rparr>;
                w2 = disconnect i w1
            in if \<not> truthy (user (state w2)) then handleLogin ''Guest'' w2 else w2)
      else w)"

subsection \<open>handleLogout\<close>

definition handleLogout :: "page \<Rightarrow> world \<Rightarrow> js_error option \<times> world" where
  "handleLogout p w =
     (let w1 = w\<lparr>state := (state w)\<lparr>user := None, messages := []\<rparr>, messagesDOM := []\<rparr>;
          w2 = w1\<lparr>storage := None\<rparr>;
          w3 = w2\<lparr>state := (state w2)\<lparr>isOpen := True\<rparr>\<rparr>;
          w4 = saveState w3
      in startUserDetection p w4)"

subsection \<open>Renderer\<close>

text \<open>
  \<^verbatim>\<open>escapeHtml\<close> assigns the text to \<^verbatim>\<open>textContent\<close> of a fresh element and reads
  \<^verbatim>\<open>innerHTML\<close> back: the browser serialises the text node, replacing the ampersand,
  the no-break space and the two angle brackets by character references.
\<close>

definition escapeChar :: "char \<Rightarrow> string" where
  "escapeChar c =
     (if c = CHR ''&'' then ''&amp;''
      else if c = CHR 0xA0 then ''&nbsp;''
      else if c = CHR ''<'' then ''&lt;''
      else if c = CHR ''>'' then ''&gt;''
      else [c])"

definition escapeHtml :: "string \<Rightarrow> string" where
  "escapeHtml txt = concat (map escapeChar txt)"

text \<open>
  The reading direction, for the statement that escaped text is shown literally: what
  the browser's parser makes of character data in which every ampersand starts one of
  the four references above.
\<close>

fun shownText :: "string \<Rightarrow> string" where
  "shownText [] = []"
| "shownText (c # cs) =
     (if c = CHR ''&'' \<and> prefix ''amp;'' cs then CHR ''&'' # shownText (drop 4 cs)
      else if c = CHR ''&'' \<and> prefix ''nbsp;'' cs then CHR 0xA0 # shownText (drop 5 cs)
      else if c = CHR ''&'' \<and> prefix ''lt;'' cs then CHR ''<'' # shownText (drop 3 cs)
      else if c = CHR ''&'' \<and> prefix ''gt;'' cs then CHR ''>'' # shownText (drop 3 cs)
      else c # shownText cs)"

text \<open>The variable \<^verbatim>\<open>content\<close> of \<^verbatim>\<open>renderMessageToDOM\<close>.\<close>

definition messageContent :: "string \<Rightarrow> bool \<Rightarrow> string option \<Rightarrow> fragment list" where
  \<open>messageContent txt isUser img =
     (case img of
        Some src \<Rightarrow>
          if src \<noteq> [] then [Html (''<img src="'' @ src @ ''" class="tn-message-image" />'')]
          else []
      | None \<Rightarrow> []) @
     (if txt \<noteq> []
      then (if isUser then [Html (''<div>'' @ escapeHtml txt @ ''</div>'')] else [FormatBot txt])
      else [])\<close>

definition renderMessageToDOM :: "string \<Rightarrow> bool \<Rightarrow> string option \<Rightarrow> world \<Rightarrow> world" where
  "renderMessageToDOM txt isUser img w =
     (let content = messageContent txt isUser img;
          messageDiv =
            \<lparr>entryClass = ''tn-message '' @ (if isUser then ''tn-user-message'' else ''tn-bot-message''),
             children = (if isUser then [ContentDiv content, AvatarDiv BustGlyph]
                         else [AvatarDiv RobotGlyph, ContentDiv content])\<rparr>
      in w\<lparr>messagesDOM := messagesDOM w @ [messageDiv]\<rparr>)"

definition addErrorMessage :: "fragment list \<Rightarrow> world \<Rightarrow> world" where
  "addErrorMessage htmlText w =
     (let messageDiv =
            \<lparr>entryClass = ''tn-message tn-bot-message tn-error-message'',
             children = [AvatarDiv WarningGlyph, ContentDiv htmlText]\<rparr>
      in w\<lparr>messagesDOM := messagesDOM w @ [messageDiv]\<rparr>)"

definition addMessage :: "string \<Rightarrow> bool \<Rightarrow> string option \<Rightarrow> world \<Rightarrow> world" where
  "addMessage txt isUser img w =
     (let w1 = w\<lparr>state := (state w)\<lparr>messages := messages (state w) @
                   [\<lparr>msg_sender = (if isUser then User else Bot),
                     msg_text = txt, msg_image = img\<rparr>]\<rparr>\<rparr>
      in renderMessageToDOM txt isUser img (saveState w1))"

definition showTyping :: "bool \<Rightarrow> world \<Rightarrow> world" where
  "showTyping flag w = w\<lparr>typingShown := flag\<rparr>"

subsection \<open>MessageChannel: sendMessage\<close>

text \<open>
  \<^verbatim>\<open>sendMessage\<close> runs up to the \<^verbatim>\<open>fetch\<close>, waits, and resumes with what the
  request gave: an exception of \<^verbatim>\<open>fetch\<close> or of \<^verbatim>\<open>response.json()\<close>, or the
  fields \<^verbatim>\<open>success\<close> and \<^verbatim>\<open>response\<close> of the body. Other handlers may run while
  it waits, so the two halves are two functions.
\<close>

datatype fetch_result = NetworkError | Reply bool string

definition sendMessage :: "world \<Rightarrow> world" where
  "sendMessage w =
     (if \<not> truthy (user (state w)) then w
      else (let msg = trim (inputValue w)
            in if msg = [] \<and> \<not> truthy (pendingImage w) then w
               else (let w1 = addMessage msg True (pendingImage w) w;
                         w2 = w1\<lparr>inputValue := [], pendingImage := None, imagePreview := None\<rparr>
                     in showTyping True w2)))"

definition connectErrorText :: "fragment list" where
  \<open>connectErrorText =
     [Symbol WarningGlyph,
      Html '' Unable to connect to the server. Please ensure the chatbot server is running at <a href="http://localhost:5000" target="_blank">http://localhost:5000</a>'']\<close>

definition sendMessage_resume :: "fetch_result \<Rightarrow> world \<Rightarrow> world" where
  "sendMessage_resume r w =
     (case r of
        Reply success response \<Rightarrow>
          (let w1 = showTyping False w
           in if success then addMessage response False None w1
              else addMessage ''Sorry, I encountered an error. Please try again.'' False None w1)
      | NetworkError \<Rightarrow> addErrorMessage connectErrorText (showTyping False w))"

subsection \<open>handlePaste\<close>

text \<open>
  The \<^verbatim>\<open>for ... in\<close> loop visits the indexed items of the clipboard list and also its
  other enumerable properties (\<^verbatim>\<open>length\<close> and the methods), whose \<^verbatim>\<open>kind\<close> is
  undefined. For an image file the handler starts a \<^verbatim>\<open>FileReader\<close>; its
  \<^verbatim>\<open>onload\<close> runs later with the data URL. The handler returns the data URLs of the
  reads it started; besides starting them (and keeping the browser from pasting the
  image as text) it writes nothing.
\<close>

datatype clipboard_entry =
  Item (kind: string) (mimeType: string) (dataURL: string)
| OtherProperty

fun isImageFile :: "clipboard_entry \<Rightarrow> bool" where
  "isImageFile (Item k t d) = (k = ''file'' \<and> js_includes t ''image/'')"
| "isImageFile OtherProperty = False"

fun startedRead :: "clipboard_entry \<Rightarrow> string list" where
  "startedRead (Item k t d) = [d]"
| "startedRead OtherProperty = []"

definition handlePaste :: "clipboard_entry list \<Rightarrow> world \<Rightarrow> string list \<times> world" where
  "handlePaste items w = (concat (map startedRead (filter isImageFile items)), w)"

definition showImagePreview :: "string \<Rightarrow> world \<Rightarrow> world" where
  "showImagePreview base64Image w = w\<lparr>imagePreview := Some base64Image\<rparr>"

definition readerOnload :: "string \<Rightarrow> world \<Rightarrow> world" where
  "readerOnload result w = showImagePreview result (w\<lparr>pendingImage := Some result\<rparr>)"

definition clearImage :: "world \<Rightarrow> world" where
  "clearImage w = w\<lparr>pendingImage := None, imagePreview := None\<rparr>"

subsection \<open>toggleChat\<close>

definition toggleChat :: "world \<Rightarrow> world" where
  "toggleChat w =
     saveState
       (if widgetHidden w
        then w\<lparr>widgetHidden := False, state := (state w)\<lparr>isOpen := True\<rparr>\<rparr>
        else w\<lparr>widgetHidden := True, state := (state w)\<lparr>isOpen := False\<rparr>\<rparr>)"

subsection \<open>DragManager\<close>

text \<open>
  A \<^verbatim>\<open>mousedown\<close> carries where the pointer is, whether its target lies in a button or
  input, whether it lies in the header or the login view, and the widget's offset at that
  moment. A \<^verbatim>\<open>mousemove\<close> carries the pointer and the sizes of the window and of the
  widget at that moment. A length written as \<^verbatim>\<open>`${n}px`\<close> is \<open>Px n\<close>.
\<close>

record mouse_down =
  downX :: int
  downY :: int
  onControl :: bool
  inHandle :: bool
  offsetLeft :: int
  offsetTop :: int

record mouse_move =
  clientX :: int
  clientY :: int
  innerWidth :: int
  innerHeight :: int
  offsetWidth :: int
  offsetHeight :: int

definition dragStart :: "mouse_down \<Rightarrow> world \<Rightarrow> world" where
  "dragStart e w =
     (if onControl e then w
      else if \<not> inHandle e then w
      else w\<lparr>bodyUserSelectNone := True,
             initialLeft := offsetLeft e, initialTop := offsetTop e,
             startX := downX e, startY := downY e,
             isDragging := True, dragListeners := True\<rparr>)"

definition drag :: "mouse_move \<Rightarrow> world \<Rightarrow> world" where
  "drag e w =
     (if \<not> isDragging w then w
      else (let currentX = clientX e - startX w;
                currentY = clientY e - startY w;
                newLeft = initialLeft w + currentX;
                newTop = initialTop w + currentY;
                maxLeft = innerWidth e - offsetWidth e;
                maxTop = innerHeight e - offsetHeight e
            in w\<lparr>widgetStyle :=
                   \<lparr>pos_top = Px (min (max 0 newTop) maxTop),
                    pos_left = Px (min (max 0 newLeft) maxLeft),
                    pos_bottom = Auto, pos_right = Auto\<rparr>\<rparr>))"

definition dragEnd :: "world \<Rightarrow> world" where
  "dragEnd w =
     (let w1 = w\<lparr>isDragging := False, bodyUserSelectNone := False, dragListeners := False\<rparr>;
          w2 = w1\<lparr>state := (state w1)\<lparr>position :=
                  \<lparr>pos_top = pos_top (widgetStyle w1), pos_left = pos_left (widgetStyle w1),
                   pos_bottom = Auto, pos_right = Auto\<rparr>\<rparr>\<rparr>
      in saveState w2)"

text \<open>The listeners for \<^verbatim>\<open>mousemove\<close> and \<^verbatim>\<open>mouseup\<close> are on the document only
  between \<^verbatim>\<open>dragStart\<close> and \<^verbatim>\<open>dragEnd\<close>.\<close>

definition onMouseMove :: "mouse_move \<Rightarrow> world \<Rightarrow> world" where
  "onMouseMove e w = (if dragListeners w then drag e w else w)"

definition onMouseUp :: "world \<Rightarrow> world" where
  "onMouseUp w = (if dragListeners w then dragEnd w else w)"

fun moves :: "mouse_move list \<Rightarrow> world \<Rightarrow> world" where
  "moves [] w = w"
| "moves (e # es) w = moves es (onMouseMove e w)"

definition dragSequence :: "mouse_down \<Rightarrow> mouse_move list \<Rightarrow> world \<Rightarrow> world" where
  "dragSequence d es w = onMouseUp (moves es (dragStart d w))"

definition fits :: "mouse_move \<Rightarrow> bool" where
  "fits e = (offsetWidth e \<le> innerWidth e \<and> offsetHeight e \<le> innerHeight e)"

definition withinViewport :: "mouse_move \<Rightarrow> position \<Rightarrow> bool" where
  "withinViewport e pos =
     (case (pos_left pos, pos_top pos) of
        (Px l, Px t) \<Rightarrow>
          0 \<le> l \<and> l \<le> innerWidth e - offsetWidth e \<and>
          0 \<le> t \<and> t \<le> innerHeight e - offsetHeight e
      | _ \<Rightarrow> False)"

subsection \<open>The events of a page\<close>

datatype event =
    MouseDown mouse_down
  | MouseMove mouse_move
  | MouseUp
  | ToggleClick
  | SendClick
  | FetchSettled fetch_result
  | Paste "clipboard_entry list"
  | ReaderLoaded string
  | ClearImageClick
  | LogoutClick page
  | Mutation page
  | Timer nat
  | OpenChatRequest

fun step :: "event \<Rightarrow> world \<Rightarrow> world" where
  "step (MouseDown d) w = dragStart d w"
| "step (MouseMove e) w = onMouseMove e w"
| "step MouseUp w = onMouseUp w"
| "step ToggleClick w = toggleChat w"
| "step SendClick w = sendMessage w"
| "step (FetchSettled r) w = sendMessage_resume r w"
| "step (Paste items) w = snd (handlePaste items w)"
| "step (ReaderLoaded d) w = readerOnload d w"
| "step ClearImageClick w = clearImage w"
| "step (LogoutClick p) w = snd (handleLogout p w)"
| "step (Mutation p) w = mutation p w"
| "step (Timer i) w = timerFires i w"
| "step OpenChatRequest w = (if widgetHidden w then toggleChat w else w)"

fun run :: "event list \<Rightarrow> world \<Rightarrow> world" where
  "run [] w = w"
| "run (ev # evs) w = run evs (step ev w)"

subsection \<open>Notions used in the statements\<close>

text \<open>What the selector pass asks of an element's \<^verbatim>\<open>innerText\<close>, read off the
  three conditions of its loop body.\<close>

definition selectorQualifies :: "string \<Rightarrow> bool" where
  "selectorQualifies elText =
     (length (trim elText) > 2 \<and> cleanName elText \<noteq> [] \<and>
      \<not> js_includes (cleanName elText) ''Log'')"

text \<open>The selector pass in the words of the specification: the first element whose
  cleaned text has length above 2 and does not contain \<open>log\<close> in any letter case.\<close>

definition specQualifies :: "string \<Rightarrow> bool" where
  "specQualifies elText =
     (length (cleanName elText) > 2 \<and>
      \<not> js_includes (toLowerCase (cleanName elText)) ''log'')"

definition specSelectorPass :: "(string \<Rightarrow> string option) \<Rightarrow> string list \<Rightarrow> string option" where
  "specSelectorPass q sels = map_option cleanName (find specQualifies (List.map_filter q sels))"

text \<open>What a fresh load would restore: the stored snapshot, or the default state.\<close>

definition persisted :: "world \<Rightarrow> chat_state" where
  "persisted w = (case storage w of Some s \<Rightarrow> s | None \<Rightarrow> initialState)"

text \<open>The script's state and the store agree; every handler that writes the state
  saves it before it returns.\<close>

definition inSync :: "world \<Rightarrow> bool" where
  "inSync w = (state w = persisted w)"

text \<open>Both passes run to their end on the page and neither finds a name.\<close>

definition passesFindNothing :: "page \<Rightarrow> bool" where
  "passesFindNothing p =
     (selectorPass (querySelector p) selectors = None \<and> heuristicPass (iconButtons p) = Inr None)"

text \<open>The session of \<open>w'\<close> continues that of \<open>w\<close>: the message log has only grown and
  an identity that was set is still set.\<close>

definition continues :: "world \<Rightarrow> world \<Rightarrow> bool" where
  "continues w w' =
     (prefix (messages (state w)) (messages (state w')) \<and>
      (user (state w) \<noteq> None \<longrightarrow> user (state w') \<noteq> None))"

fun isLogoutClick :: "event \<Rightarrow> bool" where
  "isLogoutClick (LogoutClick p) = True"
| "isLogoutClick ev = False"

text \<open>The world in which \<^verbatim>\<open>handleLogout\<close> restarts the detection.\<close>

definition loggedOut :: "world \<Rightarrow> world" where
  "loggedOut w =
     w\<lparr>state := (state w)\<lparr>user := None, messages := [], isOpen := True\<rparr>,
       messagesDOM := [],
       storage := Some ((state w)\<lparr>user := None, messages := [], isOpen := True\<rparr>)\<rparr>"

subsection \<open>Concrete pages and worlds\<close>

text \<open>
  Each page below is a host document with the widget already in it. The widget's own
  elements come last in document order (its \<^verbatim>\<open>span#tn-user-display\<close> answers the
  selector \<^verbatim>\<open>span[id*="user"]\<close> unless the host has such a span before it, and its
  logout button is among the icon buttons), so a page is written down as far as the
  script's passes read it: up to the element that resolves the identity or raises.
\<close>

text \<open>A page whose first label reads \<open>login\<close> and whose second shows a name.\<close>

definition loginLabelPage :: page where
  "loginLabelPage =
     \<lparr>querySelector = (\<lambda>sel. if sel = ''#lblUserID'' then Some ''login''
                             else if sel = ''#lblUserName'' then Some ''Ravi Kumar''
                             else None),
      iconButtons = []\<rparr>"

text \<open>A page whose first label greets a user with a name of two letters.\<close>

definition greetingPage :: page where
  "greetingPage =
     \<lparr>querySelector = (\<lambda>sel. if sel = ''#lblUserID'' then Some ''Hi Al'' else None),
      iconButtons = []\<rparr>"

text \<open>A page with a greeting in its header and a logout button beside another name.\<close>

definition portalPage :: page where
  "portalPage =
     \<lparr>querySelector = (\<lambda>sel. if sel = ''#userName'' then Some ''Welcome Asha'' else None),
      iconButtons =
        [\<lparr>innerText = ''Logout'', title = [], ariaLabel = [], className = ''btn logout'',
          ancestors = [\<lambda>sel. Inr ''Ravi Kumar'']\<rparr>]\<rparr>"

text \<open>
  The host page has an empty \<^verbatim>\<open><span id="user-icon"></span>\<close> and no other target of
  the selector list, and its only link is \<^verbatim>\<open><div><a href="/logout">Logout</a></div>\<close>,
  without a class: the selector built from the link is a lone dot, which no CSS parser
  accepts.
\<close>

definition classlessLogoutPage :: page where
  \<open>classlessLogoutPage =
     \<lparr>querySelector = (\<lambda>sel. if sel = ''span[id*="user"]'' then Some [] else None),
      iconButtons =
        [\<lparr>innerText = ''Logout'', title = [], ariaLabel = [], className = [],
          ancestors = [\<lambda>sel. if sel = ''.'' then Inl SyntaxError else Inr ''Logout'']\<rparr>]\<rparr>\<close>

text \<open>
  The host page has the same empty span, and in its header the name of the user beside a
  logout link with a class:
  \<^verbatim>\<open><div><span>Ravi Kumar</span> <a class="logout-link" href="/logout">Logout</a></div>\<close>.
\<close>

definition headerLogoutPage :: page where
  \<open>headerLogoutPage =
     \<lparr>querySelector = (\<lambda>sel. if sel = ''span[id*="user"]'' then Some [] else None),
      iconButtons =
        [\<lparr>innerText = ''Logout'', title = [], ariaLabel = [], className = ''logout-link'',
          ancestors = [\<lambda>sel. if sel = ''.logout-link'' then Inr ''Ravi Kumar ''
                             else Inr ''Ravi Kumar Logout'']\<rparr>]\<rparr>\<close>

text \<open>A signed-in user has typed a question and pressed send.\<close>

definition askedWorld :: world where
  "askedWorld = sendMessage ((handleLogin ''Asha'' initialWorld)\<lparr>inputValue := ''How do I apply?''\<rparr>)"

text \<open>The same user has typed markup instead.\<close>

definition markupWorld :: world where
  "markupWorld = (handleLogin ''Asha'' initialWorld)\<lparr>inputValue := ''<b>hi</b>''\<rparr>"

text \<open>The widget has been opened and a question typed while no identity is set.\<close>

definition strandedWorld :: world where
  "strandedWorld = (toggleChat initialWorld)\<lparr>inputValue := ''How do I apply?''\<rparr>"

text \<open>A clipboard holding plain text and a PDF file, as the paste loop enumerates it.\<close>

definition textClipboard :: "clipboard_entry list" where
  "textClipboard =
     [Item ''string'' ''text/plain'' [],
      Item ''file'' ''application/pdf'' ''data:application/pdf;base64,JVBERi0='',
      OtherProperty]"

definition grab :: mouse_down where
  "grab = \<lparr>downX = 900, downY = 500, onControl = False, inHandle = True,
           offsetLeft = 880, offsetTop = 400\<rparr>"

definition pull :: mouse_move where
  "pull = \<lparr>clientX = 2000, clientY = 10, innerWidth = 1280, innerHeight = 720,
           offsetWidth = 380, offsetHeight = 600\<rparr>"

section \<open>Name cleaning\<close>

lemma tokens_no_overlap:
  "list_all (\<lambda>t. list_all (\<lambda>u. \<not> overlapping t u) tokens) tokens"
  by (simp add: tokens_def overlapping_def upt_rec)

lemma tokens_prefix_free:
  "list_all (\<lambda>t. list_all (\<lambda>u. prefix t u \<longrightarrow> t = u) tokens) tokens"
  by (simp add: tokens_def)

lemma tokens_nonempty: "t \<in> set tokens \<Longrightarrow> t \<noteq> []"
  by (auto simp: tokens_def)

lemma toLowerCase_append [simp]: "toLowerCase (a @ b) = toLowerCase a @ toLowerCase b"
  by (simp add: toLowerCase_def)

lemma length_toLowerCase [simp]: "length (toLowerCase s) = length s"
  by (simp add: toLowerCase_def)

text \<open>An alternative that matches in front of an occurrence of an alternative ends in
  front of it: two occurrences never share a code unit.\<close>

lemma token_stays_before:
  assumes t: "t \<in> set tokens" and u: "u \<in> set tokens"
    and p: "p \<noteq> []" and pre: "prefix t (p @ u @ q)"
  shows "prefix t p"
proof (rule ccontr)
  assume np: "\<not> prefix t p"
  with pre obtain us where us: "t = p @ us" "prefix us (u @ q)"
    by (auto simp: prefix_append)
  from np us have ne: "us \<noteq> []" by auto
  have "prefix u (u @ q)" by simp
  with us(2) have cmp: "prefix us u \<or> prefix u us" by (rule prefix_same_cases)
  have k: "length p \<in> set [1..<length t]"
    using p ne us(1) by (auto simp: Suc_le_eq)
  have "drop (length p) t = us" using us(1) by simp
  with cmp k have "overlapping t u"
    unfolding overlapping_def list_ex_iff by blast
  with tokens_no_overlap t u show False by (auto simp: list_all_iff)
qed

lemma token_same_start:
  assumes t: "t \<in> set tokens" and u: "u \<in> set tokens" and pre: "prefix t (u @ q)"
  shows "t = u"
proof -
  have "prefix u (u @ q)" by simp
  with pre have "prefix t u \<or> prefix u t" by (rule prefix_same_cases)
  with tokens_prefix_free t u show ?thesis by (auto simp: list_all_iff)
qed

lemma find_unique:
  "x \<in> set xs \<Longrightarrow> P x \<Longrightarrow> \<forall>y\<in>set xs. P y \<longrightarrow> x = y \<Longrightarrow> find P xs = Some x"
proof (induction xs)
  case Nil
  then show ?case by simp
next
  case (Cons a xs)
  show ?case
  proof (cases "P a")
    case True
    from Cons.prems(3) True have "x = a" by simp
    with True show ?thesis by simp
  next
    case False
    from Cons.prems(1,2) False have mem: "x \<in> set xs" by auto
    from Cons.prems(3) have uniq: "\<forall>y\<in>set xs. P y \<longrightarrow> x = y" by simp
    have "find P xs = Some x" by (rule Cons.IH [OF mem Cons.prems(2) uniq])
    with False show ?thesis by simp
  qed
qed

lemma matchAt_occurrence:
  assumes "toLowerCase occ \<in> set tokens"
  shows "matchAt (occ @ post) = Some (toLowerCase occ)"
proof -
  let ?u = "toLowerCase occ"
  have "find (\<lambda>t. prefix t (toLowerCase (occ @ post))) tokens = Some ?u"
  proof (rule find_unique)
    show "?u \<in> set tokens" by (rule assms)
    show "prefix ?u (toLowerCase (occ @ post))" by simp
    show "\<forall>y\<in>set tokens. prefix y (toLowerCase (occ @ post)) \<longrightarrow> ?u = y"
      using token_same_start [OF _ assms, of _ "toLowerCase post"] by auto
  qed
  then show ?thesis by (simp only: matchAt_def)
qed

lemma matchAt_before_occurrence:
  assumes u: "toLowerCase occ \<in> set tokens" and p: "pre \<noteq> []"
  shows "matchAt (pre @ occ @ post) = matchAt pre"
proof -
  have "prefix t (toLowerCase (pre @ occ @ post)) = prefix t (toLowerCase pre)"
    if "t \<in> set tokens" for t
  proof
    assume "prefix t (toLowerCase (pre @ occ @ post))"
    then have "prefix t (toLowerCase pre @ toLowerCase occ @ toLowerCase post)" by simp
    moreover have "toLowerCase pre \<noteq> []" using p by (simp add: toLowerCase_def)
    ultimately show "prefix t (toLowerCase pre)"
      using token_stays_before [OF that u] by blast
  next
    assume "prefix t (toLowerCase pre)"
    then show "prefix t (toLowerCase (pre @ occ @ post))"
      by (simp add: prefix_prefix)
  qed
  then have "find (\<lambda>t. prefix t (toLowerCase (pre @ occ @ post))) tokens
      = find (\<lambda>t. prefix t (toLowerCase pre)) tokens"
    by (intro find_cong refl)
  then show ?thesis by (simp only: matchAt_def)
qed

lemma matchAt_SomeD:
  "matchAt s = Some t \<Longrightarrow> t \<in> set tokens \<and> prefix t (toLowerCase s)"
  unfolding matchAt_def by (auto simp: find_Some_iff)

lemma replaceTokens_occurrence:
  assumes "toLowerCase occ \<in> set tokens"
  shows "replaceTokens (occ @ post) = replaceTokens post"
proof (cases occ)
  case Nil
  with assms tokens_nonempty show ?thesis by (auto simp: toLowerCase_def)
next
  case (Cons c cs)
  have "matchAt ((c # cs) @ post) = Some (toLowerCase (c # cs))"
    using matchAt_occurrence [OF assms] Cons by simp
  then show ?thesis using Cons by simp
qed

lemma replaceTokens_before_occurrence:
  assumes u: "toLowerCase occ \<in> set tokens"
  shows "replaceTokens (pre @ occ @ post) = replaceTokens pre @ replaceTokens post"
proof (induction pre rule: replaceTokens.induct)
  case 1
  show ?case using replaceTokens_occurrence [OF u] by simp
next
  case (2 c cs)
  have m: "matchAt ((c # cs) @ occ @ post) = matchAt (c # cs)"
    by (rule matchAt_before_occurrence [OF u]) simp
  show ?case
  proof (cases "matchAt (c # cs)")
    case None
    with m 2 show ?thesis by simp
  next
    case (Some t)
    then have "prefix t (toLowerCase (c # cs))" by (simp add: matchAt_SomeD)
    then have "length t \<le> Suc (length cs)"
      by (metis length_toLowerCase prefix_length_le length_Cons)
    then have "drop (length t - 1) (cs @ occ @ post) = drop (length t - 1) cs @ occ @ post"
      by simp
    with m Some 2 show ?thesis by simp
  qed
qed

text \<open>The replacement only deletes.\<close>

lemma subseq_replaceTokens: "subseq (replaceTokens s) s"
proof (induction s rule: replaceTokens.induct)
  case 1
  show ?case by simp
next
  case (2 c cs)
  show ?case
  proof (cases "matchAt (c # cs)")
    case None
    with 2 show ?thesis by simp
  next
    case (Some t)
    with 2 have "subseq (replaceTokens (c # cs)) (drop (length t - 1) cs)" by simp
    moreover have "subseq (drop (length t - 1) cs) (c # cs)"
      by (metis append_take_drop_id subseq_drop_many subseq_order.order_refl list_emb_Cons)
    ultimately show ?thesis using subseq_order.order_trans by blast
  qed
qed

text \<open>
  Claim C10. Name cleaning removes every occurrence, in any letter case, of
  \<open>welcome\<close>, \<open>hello\<close>, \<open>hi\<close>, \<open>mr.\<close>, \<open>ms.\<close> and \<open>user:\<close>, wherever it stands in the
  text and whatever surrounds it, and then trims: if the text is \<open>pre\<close>, an occurrence
  and \<open>post\<close>, the result is made of what cleaning leaves of \<open>pre\<close> and of \<open>post\<close> alone.
  Nothing but deletions happens, and a name can come out altered: \<open>Sachin\<close> loses its
  \<open>hi\<close> and becomes \<open>Sacn\<close>.
\<close>

theorem cleanName_removes_every_occurrence:
  "(toLowerCase occ \<in> set tokens \<longrightarrow>
      replaceTokens (pre @ occ @ post) = replaceTokens pre @ replaceTokens post \<and>
      cleanName (pre @ occ @ post) = trim (replaceTokens pre @ replaceTokens post))
   \<and> cleanName txt = trim (replaceTokens txt)
   \<and> subseq (replaceTokens txt) txt
   \<and> cleanName ''Sachin'' = ''Sacn''"
proof (intro conjI impI)
  assume u: "toLowerCase occ \<in> set tokens"
  show "replaceTokens (pre @ occ @ post) = replaceTokens pre @ replaceTokens post"
    by (rule replaceTokens_before_occurrence [OF u])
  then show "cleanName (pre @ occ @ post) = trim (replaceTokens pre @ replaceTokens post)"
    by (simp add: cleanName_def)
next
  show "cleanName txt = trim (replaceTokens txt)" by (simp add: cleanName_def)
  show "subseq (replaceTokens txt) txt" by (rule subseq_replaceTokens)
  show "cleanName ''Sachin'' = ''Sacn''" by code_simp
qed

theorem cleanName_removes_every_occurrence_witness:
  "toLowerCase ''HI'' \<in> set tokens \<and>
   cleanName (''Welcome Sac'' @ ''HI'' @ ''n '') = trim (replaceTokens ''Welcome Sac'' @ replaceTokens ''n '') \<and>
   cleanName (''Welcome Sac'' @ ''HI'' @ ''n '') = ''Sacn''"
proof -
  have h: "toLowerCase ''HI'' \<in> set tokens" by code_simp
  have e: "trim (replaceTokens ''Welcome Sac'' @ replaceTokens ''n '') = ''Sacn''" by code_simp
  from cleanName_removes_every_occurrence [of "''HI''" "''Welcome Sac''" "''n ''" "[]"] h
  have "cleanName (''Welcome Sac'' @ ''HI'' @ ''n '') =
        trim (replaceTokens ''Welcome Sac'' @ replaceTokens ''n '')"
    by blast
  with h e show ?thesis by simp
qed

section \<open>The selector pass\<close>

lemma selectorPass_find:
  "selectorPass q sels = map_option cleanName (find selectorQualifies (List.map_filter q sels))"
  by (induction sels)
     (simp_all add: List.map_filter_simps selectorQualifies_def Let_def split: option.splits)

lemma selectorPass_SomeD:
  "selectorPass q sels = Some name \<Longrightarrow> name \<noteq> [] \<and> \<not> js_includes name ''Log''"
  by (induction sels) (auto simp: Let_def split: option.splits if_splits)

lemma user_handleLogin:
  "name \<noteq> [] \<Longrightarrow> user (state (handleLogin name w)) = Some name"
  by (simp add: handleLogin_def saveState_def)

lemma detect_selector:
  "selectorPass (querySelector p) selectors = Some name \<Longrightarrow>
   detectUserOnPage p w = (Inr True, handleLogin name w)"
  by (simp add: detectUserOnPage_def)

text \<open>
  Claim C3, as the specification words it, fails. The check for \<open>Log\<close> is made with
  this spelling only, so a label reading \<open>login\<close> resolves the identity although a later
  element shows a name; and the length above 2 is asked of the trimmed text before
  cleaning, so \<open>Hi Al\<close> resolves the identity to the two letters \<open>Al\<close>.
\<close>

theorem selector_pass_accepts_lowercase_login:
  "selectorPass (querySelector loginLabelPage) selectors = Some ''login'' \<and>
   js_includes (toLowerCase (cleanName ''login'')) ''log'' \<and>
   specSelectorPass (querySelector loginLabelPage) selectors = Some ''Ravi Kumar'' \<and>
   selectorPass (querySelector greetingPage) selectors = Some ''Al'' \<and>
   \<not> specQualifies ''Hi Al'' \<and>
   specSelectorPass (querySelector greetingPage) selectors = None"
  by code_simp

text \<open>
  Claim C3, amended. The selector pass resolves the identity to the cleaned text of the
  first element of the selector list that exists, whose trimmed text has length above 2,
  and whose cleaned text is not empty and does not contain \<open>Log\<close> in exactly this
  spelling; it does so at once, without running the heuristic pass. An element whose
  cleaned text contains \<open>Log\<close> in this spelling never resolves it.
\<close>

theorem selector_pass_takes_first_qualifying:
  "selectorPass (querySelector p) selectors =
     map_option cleanName (find selectorQualifies (List.map_filter (querySelector p) selectors))
   \<and> (js_includes (cleanName elText) ''Log'' \<longrightarrow> \<not> selectorQualifies elText)
   \<and> (selectorPass (querySelector p) selectors = Some name \<longrightarrow>
        name \<noteq> [] \<and> \<not> js_includes name ''Log'' \<and>
        detectUserOnPage p w = (Inr True, handleLogin name w) \<and>
        user (state (snd (detectUserOnPage p w))) = Some name)"
proof (intro conjI impI)
  show "selectorPass (querySelector p) selectors =
     map_option cleanName (find selectorQualifies (List.map_filter (querySelector p) selectors))"
    by (rule selectorPass_find)
next
  assume "js_includes (cleanName elText) ''Log''"
  then show "\<not> selectorQualifies elText" by (simp add: selectorQualifies_def)
next
  assume r: "selectorPass (querySelector p) selectors = Some name"
  then show ne: "name \<noteq> []" and "\<not> js_includes name ''Log''"
    using selectorPass_SomeD by blast+
  show d: "detectUserOnPage p w = (Inr True, handleLogin name w)"
    by (rule detect_selector [OF r])
  show "user (state (snd (detectUserOnPage p w))) = Some name"
    using d ne by (simp add: user_handleLogin)
qed

theorem selector_pass_takes_first_qualifying_witness:
  "selectorPass (querySelector portalPage) selectors = Some ''Asha'' \<and>
   detectUserOnPage portalPage initialWorld = (Inr True, handleLogin ''Asha'' initialWorld) \<and>
   user (state (snd (detectUserOnPage portalPage initialWorld))) = Some ''Asha'' \<and>
   js_includes (cleanName ''Logout'') ''Log'' \<and> \<not> selectorQualifies ''Logout''"
proof -
  have r: "selectorPass (querySelector portalPage) selectors = Some ''Asha''" by code_simp
  have l: "js_includes (cleanName ''Logout'') ''Log''" by code_simp
  from selector_pass_takes_first_qualifying [of portalPage "''Logout''" "''Asha''" initialWorld] r l
  show ?thesis by blast
qed

text \<open>
  Claim C5. When the selector pass and the heuristic pass would each resolve an identity
  on a page, one detection run resolves to the name of the selector pass.
\<close>

theorem selector_pass_wins:
  assumes "selectorPass (querySelector p) selectors = Some n1"
    and "heuristicPass (iconButtons p) = Inr (Some n2)"
  shows "detectUserOnPage p w = (Inr True, handleLogin n1 w) \<and>
         startUserDetection p w = (None, handleLogin n1 w) \<and>
         user (state (snd (startUserDetection p w))) = Some n1"
proof -
  have d: "detectUserOnPage p w = (Inr True, handleLogin n1 w)"
    by (rule detect_selector [OF assms(1)])
  then have s: "startUserDetection p w = (None, handleLogin n1 w)"
    by (simp add: startUserDetection_def)
  from assms(1) have "n1 \<noteq> []" using selectorPass_SomeD by blast
  with d s show ?thesis by (simp add: user_handleLogin)
qed

theorem selector_pass_wins_witness:
  "selectorPass (querySelector portalPage) selectors = Some ''Asha'' \<and>
   heuristicPass (iconButtons portalPage) = Inr (Some ''Ravi Kumar'') \<and>
   user (state (snd (startUserDetection portalPage initialWorld))) = Some ''Asha''"
proof -
  have a: "selectorPass (querySelector portalPage) selectors = Some ''Asha''" by code_simp
  have b: "heuristicPass (iconButtons portalPage) = Inr (Some ''Ravi Kumar'')" by code_simp
  from selector_pass_wins [OF a b, of initialWorld] a b show ?thesis by blast
qed

section \<open>The observer and the fallback to Guest\<close>

text \<open>When both passes run to their end without a name, on the page and after every
  mutation, the identity stays unset until the timer fires and is \<open>Guest\<close> from then on;
  the timer disconnects the observer and cannot fire again.\<close>

lemma detect_nothing:
  "passesFindNothing p \<Longrightarrow> detectUserOnPage p w = (Inr False, w)"
  by (simp add: passesFindNothing_def detectUserOnPage_def)

lemma observerCallback_nothing:
  "\<not> truthy (user (state w)) \<Longrightarrow> passesFindNothing p \<Longrightarrow> observerCallback i p w = w"
  by (simp add: observerCallback_def detect_nothing)

lemma notifyObservers_nothing:
  "\<not> truthy (user (state w)) \<Longrightarrow> passesFindNothing p \<Longrightarrow> notifyObservers js p w = w"
  by (induction js) (simp_all add: observerCallback_nothing)

lemma mutations_nothing:
  "\<not> truthy (user (state w)) \<Longrightarrow> \<forall>p\<in>set ps. passesFindNothing p \<Longrightarrow>
   run (map Mutation ps) w = w"
  by (induction ps) (simp_all add: mutation_def notifyObservers_nothing)

lemma guest_fallback_when_passes_complete:
  assumes u: "\<not> truthy (user (state w))"
    and p: "passesFindNothing p"
    and ps: "\<forall>p'\<in>set ps. passesFindNothing p'"
  defines "k \<equiv> length (detectors w)"
  defines "w1 \<equiv> snd (startUserDetection p w)"
  defines "w2 \<equiv> run (map Mutation ps) w1"
  defines "w3 \<equiv> timerFires k w2"
  shows "fst (startUserDetection p w) = None"
    and "user (state w2) = user (state w)"
    and "user (state w3) = Some ''Guest''"
    and "detectors w3 ! k = \<lparr>connected = False, timerArmed = False\<rparr>"
    and "timerFires k w3 = w3"
proof -
  have s: "startUserDetection p w =
      (None, w\<lparr>detectors := detectors w @ [\<lparr>connected = True, timerArmed = True\<rparr>]\<rparr>)"
    using p by (simp add: startUserDetection_def detect_nothing)
  then show "fst (startUserDetection p w) = None" by simp
  have w1: "w1 = w\<lparr>detectors := detectors w @ [\<lparr>connected = True, timerArmed = True\<rparr>]\<rparr>"
    using s by (simp add: w1_def)
  then have "\<not> truthy (user (state w1))" using u by simp
  then have w2: "w2 = w1" unfolding w2_def using ps by (rule mutations_nothing)
  then show "user (state w2) = user (state w)" using w1 by simp
  have w3: "w3 = handleLogin ''Guest''
      (w\<lparr>detectors := detectors w @ [\<lparr>connected = False, timerArmed = False\<rparr>]\<rparr>)"
    using u by (simp add: w3_def w2 w1 timerFires_def k_def disconnect_def Let_def)
  then show "user (state w3) = Some ''Guest''"
    by (simp add: handleLogin_def saveState_def Let_def)
  from w3 show d: "detectors w3 ! k = \<lparr>connected = False, timerArmed = False\<rparr>"
    by (simp add: handleLogin_def saveState_def k_def Let_def)
  then show "timerFires k w3 = w3" by (simp add: timerFires_def)
qed

text \<open>
  Claim C4 asks the fallback of every page on which neither pass resolves an identity.
  On a page whose logout link has no class the heuristic pass builds the selector
  \<open>.\<close>, the clone's \<^verbatim>\<open>querySelector\<close> raises, and the exception leaves
  \<^verbatim>\<open>startUserDetection\<close> before the observer and the timer exist: the identity is
  never resolved, not even to \<open>Guest\<close>.
\<close>

theorem guest_fallback_lost_on_invalid_selector:
  "selectorPass (querySelector classlessLogoutPage) selectors = None \<and>
   buttonSelector (hd (iconButtons classlessLogoutPage)) = ''.'' \<and>
   heuristicPass (iconButtons classlessLogoutPage) = Inl SyntaxError \<and>
   startUserDetection classlessLogoutPage initialWorld = (Some SyntaxError, initialWorld) \<and>
   detectors initialWorld = [] \<and>
   user (state (run [Mutation classlessLogoutPage, Timer 0] initialWorld)) = None"
  by code_simp

section \<open>Logout and the life of a session\<close>

lemma continues_refl [simp]: "continues w w"
  by (simp add: continues_def)

lemma continues_trans: "continues a b \<Longrightarrow> continues b c \<Longrightarrow> continues a c"
  by (auto simp: continues_def intro: prefix_order.trans)

lemma continues_cong:
  "state w' = state w \<Longrightarrow> continues w w'"
  by (simp add: continues_def)

lemma continues_handleLogin: "continues w (handleLogin n w)"
  by (simp add: continues_def handleLogin_def saveState_def Let_def)

lemma continues_detect: "continues w (snd (detectUserOnPage p w))"
  by (simp add: detectUserOnPage_def continues_handleLogin split: option.splits sum.splits)

lemma state_disconnect [simp]: "state (disconnect i w) = state w"
  by (simp add: disconnect_def)

lemma continues_disconnect: "continues a b \<Longrightarrow> continues a (disconnect i b)"
  by (simp add: continues_def)

lemma continues_startUserDetection: "continues w (snd (startUserDetection p w))"
proof -
  obtain r w' where d: "detectUserOnPage p w = (r, w')" by (cases "detectUserOnPage p w")
  with continues_detect [of w p] have c: "continues w w'" by simp
  then have "continues w (w'\<lparr>detectors := detectors w' @ [\<lparr>connected = True, timerArmed = True\<rparr>]\<rparr>)"
    by (simp add: continues_def)
  with c d show ?thesis
    by (simp add: startUserDetection_def split: sum.splits bool.splits)
qed

lemma continues_observerCallback: "continues w (observerCallback i p w)"
proof -
  obtain r w' where d: "detectUserOnPage p w = (r, w')" by (cases "detectUserOnPage p w")
  with continues_detect [of w p] have c: "continues w w'" by simp
  with d show ?thesis
    by (simp add: observerCallback_def continues_disconnect split: sum.splits bool.splits)
qed

lemma continues_notifyObservers: "continues w (notifyObservers js p w)"
proof (induction js arbitrary: w)
  case Nil
  show ?case by simp
next
  case (Cons i js)
  let ?w = "if connected (detectors w ! i) then observerCallback i p w else w"
  have "continues w ?w" by (simp add: continues_observerCallback)
  moreover have "continues ?w (notifyObservers js p ?w)" by (rule Cons.IH)
  ultimately have "continues w (notifyObservers js p ?w)" by (rule continues_trans)
  then show ?case by simp
qed

lemma continues_timerFires: "continues w (timerFires i w)"
  by (simp add: timerFires_def Let_def continues_handleLogin continues_def
      handleLogin_def saveState_def disconnect_def)

lemma continues_addMessage: "continues w (addMessage t u i w)"
  by (simp add: continues_def addMessage_def renderMessageToDOM_def saveState_def Let_def)

lemma continues_sendMessage: "continues w (sendMessage w)"
  by (simp add: continues_def sendMessage_def addMessage_def renderMessageToDOM_def
      saveState_def showTyping_def Let_def)

lemma continues_resume: "continues w (sendMessage_resume r w)"
  by (cases r)
     (simp_all add: continues_def sendMessage_resume_def addMessage_def addErrorMessage_def
      renderMessageToDOM_def saveState_def showTyping_def Let_def)

lemma continues_step:
  assumes "\<not> isLogoutClick ev"
  shows "continues w (step ev w)"
proof (cases ev)
  case (MouseDown d)
  then show ?thesis by (simp add: dragStart_def continues_def)
next
  case (MouseMove e)
  then show ?thesis by (simp add: onMouseMove_def drag_def continues_def Let_def)
next
  case MouseUp
  then show ?thesis by (simp add: onMouseUp_def dragEnd_def saveState_def continues_def Let_def)
next
  case ToggleClick
  then show ?thesis by (simp add: toggleChat_def saveState_def continues_def)
next
  case SendClick
  then show ?thesis by (simp add: continues_sendMessage)
next
  case (FetchSettled r)
  then show ?thesis by (simp add: continues_resume)
next
  case (Paste items)
  then show ?thesis by (simp add: handlePaste_def)
next
  case (ReaderLoaded d)
  then show ?thesis by (simp add: readerOnload_def showImagePreview_def continues_def)
next
  case ClearImageClick
  then show ?thesis by (simp add: clearImage_def continues_def)
next
  case (LogoutClick p)
  with assms show ?thesis by simp
next
  case (Mutation p)
  then show ?thesis by (simp add: mutation_def continues_notifyObservers)
next
  case (Timer i)
  then show ?thesis by (simp add: continues_timerFires)
next
  case OpenChatRequest
  then show ?thesis by (simp add: toggleChat_def saveState_def continues_def)
qed

lemma continues_run:
  "\<forall>ev\<in>set evs. \<not> isLogoutClick ev \<Longrightarrow> continues w (run evs w)"
proof (induction evs arbitrary: w)
  case Nil
  show ?case by simp
next
  case (Cons ev evs)
  then have "continues w (step ev w)" by (simp add: continues_step)
  moreover have "continues (step ev w) (run evs (step ev w))" using Cons by simp
  ultimately have "continues w (run evs (step ev w))" by (rule continues_trans)
  then show ?case by simp
qed

lemma handleLogout_loggedOut: "handleLogout p w = startUserDetection p (loggedOut w)"
  by (cases w) (simp add: handleLogout_def loggedOut_def saveState_def Let_def)

lemma messages_handleLogin [simp]: "messages (state (handleLogin n w)) = messages (state w)"
  by (simp add: handleLogin_def saveState_def Let_def)

lemma messagesDOM_startUserDetection:
  "messagesDOM (snd (startUserDetection p w)) = messagesDOM w"
  by (simp add: startUserDetection_def detectUserOnPage_def handleLogin_def saveState_def
      Let_def split: option.splits sum.splits bool.splits)

lemma messages_startUserDetection:
  "messages (state (snd (startUserDetection p w))) = messages (state w)"
  by (simp add: startUserDetection_def detectUserOnPage_def
      split: option.splits sum.splits bool.splits)

lemma scanLines_SomeD: "scanLines ls = Some n \<Longrightarrow> n \<noteq> []"
  by (auto simp: scanLines_def find_Some_iff plausibleName_def)

lemma scanContainers_SomeD: "scanContainers sel cs = Inr (Some n) \<Longrightarrow> n \<noteq> []"
  by (induction cs) (auto split: sum.splits option.splits dest: scanLines_SomeD)

lemma heuristicPass_SomeD: "heuristicPass bs = Inr (Some n) \<Longrightarrow> n \<noteq> []"
  by (induction bs) (auto split: if_splits sum.splits option.splits dest: scanContainers_SomeD)

lemma detect_heuristic:
  "selectorPass (querySelector p) selectors = None \<Longrightarrow>
   heuristicPass (iconButtons p) = Inr (Some n) \<Longrightarrow>
   detectUserOnPage p w = (Inr True, handleLogin n w)"
  by (simp add: detectUserOnPage_def)

lemma detect_raises:
  "selectorPass (querySelector p) selectors = None \<Longrightarrow>
   heuristicPass (iconButtons p) = Inl e \<Longrightarrow>
   detectUserOnPage p w = (Inl e, w)"
  by (simp add: detectUserOnPage_def)

subsection \<open>The state and the store\<close>

lemma persisted_saveState [simp]: "persisted (saveState w) = state w"
  by (simp add: persisted_def saveState_def)

lemma inSync_saveState [simp]: "inSync (saveState w)"
  by (simp add: inSync_def persisted_def saveState_def)

lemma inSync_handleLogin: "inSync w \<Longrightarrow> inSync (handleLogin n w)"
  by (simp add: handleLogin_def Let_def)

lemma inSync_detect: "inSync w \<Longrightarrow> inSync (snd (detectUserOnPage p w))"
  by (simp add: detectUserOnPage_def inSync_handleLogin split: option.splits sum.splits)

lemma inSync_disconnect: "inSync w \<Longrightarrow> inSync (disconnect i w)"
  by (simp add: disconnect_def inSync_def persisted_def)

lemma inSync_startUserDetection: "inSync w \<Longrightarrow> inSync (snd (startUserDetection p w))"
proof -
  assume s: "inSync w"
  obtain r w' where d: "detectUserOnPage p w = (r, w')" by (cases "detectUserOnPage p w")
  with inSync_detect [OF s, of p] have c: "inSync w'" by simp
  then have "inSync (w'\<lparr>detectors := detectors w' @ [\<lparr>connected = True, timerArmed = True\<rparr>]\<rparr>)"
    by (simp add: inSync_def persisted_def)
  with c d show ?thesis
    by (simp add: startUserDetection_def split: sum.splits bool.splits)
qed

lemma inSync_observerCallback: "inSync w \<Longrightarrow> inSync (observerCallback i p w)"
proof -
  assume s: "inSync w"
  obtain r w' where d: "detectUserOnPage p w = (r, w')" by (cases "detectUserOnPage p w")
  with inSync_detect [OF s, of p] have c: "inSync w'" by simp
  with d s show ?thesis
    by (simp add: observerCallback_def inSync_disconnect split: sum.splits bool.splits)
qed

lemma inSync_notifyObservers: "inSync w \<Longrightarrow> inSync (notifyObservers js p w)"
  by (induction js arbitrary: w) (simp_all add: inSync_observerCallback)

lemma inSync_timerFires: "inSync w \<Longrightarrow> inSync (timerFires i w)"
  by (simp add: timerFires_def Let_def handleLogin_def disconnect_def)
     (simp add: inSync_def persisted_def)

lemma inSync_loggedOut: "inSync (loggedOut w)"
  by (simp add: loggedOut_def inSync_def persisted_def)

text \<open>Every handler leaves the state and the store in agreement.\<close>

lemma inSync_step:
  assumes "inSync w"
  shows "inSync (step ev w)"
proof (cases ev)
  case (MouseDown d)
  with assms show ?thesis by (simp add: dragStart_def inSync_def persisted_def)
next
  case (MouseMove e)
  with assms show ?thesis by (simp add: onMouseMove_def drag_def inSync_def persisted_def Let_def)
next
  case MouseUp
  with assms show ?thesis by (simp add: onMouseUp_def dragEnd_def Let_def)
next
  case ToggleClick
  then show ?thesis by (simp add: toggleChat_def)
next
  case SendClick
  with assms show ?thesis
    by (simp add: sendMessage_def addMessage_def renderMessageToDOM_def showTyping_def
        saveState_def inSync_def persisted_def Let_def)
next
  case (FetchSettled r)
  with assms show ?thesis
    by (cases r)
       (simp_all add: sendMessage_resume_def addMessage_def addErrorMessage_def
        renderMessageToDOM_def showTyping_def saveState_def inSync_def persisted_def Let_def)
next
  case (Paste items)
  with assms show ?thesis by (simp add: handlePaste_def)
next
  case (ReaderLoaded d)
  with assms show ?thesis
    by (simp add: readerOnload_def showImagePreview_def inSync_def persisted_def)
next
  case ClearImageClick
  with assms show ?thesis by (simp add: clearImage_def inSync_def persisted_def)
next
  case (LogoutClick p)
  then show ?thesis
    by (simp add: handleLogout_loggedOut inSync_startUserDetection inSync_loggedOut)
next
  case (Mutation p)
  with assms show ?thesis by (simp add: mutation_def inSync_notifyObservers)
next
  case (Timer i)
  with assms show ?thesis by (simp add: inSync_timerFires)
next
  case OpenChatRequest
  with assms show ?thesis by (simp add: toggleChat_def)
qed

lemma inSync_run: "inSync w \<Longrightarrow> inSync (run evs w)"
  by (induction evs arbitrary: w) (simp_all add: inSync_step)

lemma inSync_initialWorld: "inSync initialWorld"
  by (simp add: inSync_def persisted_def initialWorld_def)

text \<open>
  Claim C6, as the specification words it, fails: the identity is not unset when logout
  returns. On a page that shows the user's name the detector, restarted by logout,
  resolves the identity again before logout returns.
\<close>

theorem logout_leaves_identity_set:
  "user (state askedWorld) = Some ''Asha'' \<and>
   user (state (snd (handleLogout portalPage askedWorld))) = Some ''Asha'' \<and>
   detectors (snd (handleLogout portalPage askedWorld)) = []"
  by code_simp

text \<open>
  Claim C6, amended. Logout empties the message log (in the state, in the widget and in
  the store) and clears the identity, and then runs the detector from its first pass on
  the page as it is: when logout returns the log is empty, and the identity is the name
  of the selector pass if that pass finds one, else the name of the heuristic pass if
  that finds one, and it is unset when the heuristic pass raises. No sequence of other
  events resets a session, in the state or in the store: the log only grows and an
  identity that is set stays set.
\<close>

theorem logout_clears_then_rescans:
  "handleLogout p w = startUserDetection p (loggedOut w) \<and>
   user (state (loggedOut w)) = None \<and>
   messages (state (loggedOut w)) = [] \<and>
   messagesDOM (loggedOut w) = [] \<and>
   storage (loggedOut w) = Some (state (loggedOut w)) \<and>
   messages (state (snd (handleLogout p w))) = [] \<and>
   messagesDOM (snd (handleLogout p w)) = [] \<and>
   (selectorPass (querySelector p) selectors = Some n \<longrightarrow>
      handleLogout p w = (None, handleLogin n (loggedOut w)) \<and>
      user (state (snd (handleLogout p w))) = Some n) \<and>
   (selectorPass (querySelector p) selectors = None \<and>
    heuristicPass (iconButtons p) = Inr (Some n) \<longrightarrow>
      handleLogout p w = (None, handleLogin n (loggedOut w)) \<and>
      user (state (snd (handleLogout p w))) = Some n) \<and>
   (selectorPass (querySelector p) selectors = None \<and>
    heuristicPass (iconButtons p) = Inl e \<longrightarrow>
      handleLogout p w = (Some e, loggedOut w)) \<and>
   ((\<forall>ev\<in>set evs. \<not> isLogoutClick ev) \<longrightarrow> continues w (run evs w)) \<and>
   (inSync w \<and> (\<forall>ev\<in>set evs. \<not> isLogoutClick ev) \<longrightarrow>
      prefix (messages (persisted w)) (messages (persisted (run evs w))) \<and>
      (user (persisted w) \<noteq> None \<longrightarrow> user (persisted (run evs w)) \<noteq> None))"
proof (intro conjI impI)
  show l: "handleLogout p w = startUserDetection p (loggedOut w)"
    by (rule handleLogout_loggedOut)
  show "user (state (loggedOut w)) = None" "messages (state (loggedOut w)) = []"
    "messagesDOM (loggedOut w) = []" "storage (loggedOut w) = Some (state (loggedOut w))"
    by (simp_all add: loggedOut_def)
  show "messages (state (snd (handleLogout p w))) = []"
    by (simp add: l messages_startUserDetection) (simp add: loggedOut_def)
  show "messagesDOM (snd (handleLogout p w)) = []"
    by (simp add: l messagesDOM_startUserDetection) (simp add: loggedOut_def)
next
  assume r: "selectorPass (querySelector p) selectors = Some n"
  then have ne: "n \<noteq> []" using selectorPass_SomeD by blast
  show h: "handleLogout p w = (None, handleLogin n (loggedOut w))"
    by (simp add: handleLogout_loggedOut startUserDetection_def detect_selector [OF r])
  show "user (state (snd (handleLogout p w))) = Some n"
    using ne by (simp add: h user_handleLogin)
next
  assume a: "selectorPass (querySelector p) selectors = None \<and>
    heuristicPass (iconButtons p) = Inr (Some n)"
  then have ne: "n \<noteq> []" using heuristicPass_SomeD by blast
  show h: "handleLogout p w = (None, handleLogin n (loggedOut w))"
    using a by (simp add: handleLogout_loggedOut startUserDetection_def detect_heuristic)
  show "user (state (snd (handleLogout p w))) = Some n"
    using ne by (simp add: h user_handleLogin)
next
  assume "selectorPass (querySelector p) selectors = None \<and>
    heuristicPass (iconButtons p) = Inl e"
  then show "handleLogout p w = (Some e, loggedOut w)"
    by (simp add: handleLogout_loggedOut startUserDetection_def detect_raises)
next
  assume "\<forall>ev\<in>set evs. \<not> isLogoutClick ev"
  then show "continues w (run evs w)" by (rule continues_run)
next
  assume a: "inSync w \<and> (\<forall>ev\<in>set evs. \<not> isLogoutClick ev)"
  then have c: "continues w (run evs w)" using continues_run by blast
  from a have "inSync (run evs w)" by (simp add: inSync_run)
  with a have e: "persisted w = state w" "persisted (run evs w) = state (run evs w)"
    by (simp_all add: inSync_def)
  from c show "prefix (messages (persisted w)) (messages (persisted (run evs w)))"
    by (simp add: e continues_def)
next
  assume a: "inSync w \<and> (\<forall>ev\<in>set evs. \<not> isLogoutClick ev)"
    and b: "user (persisted w) \<noteq> None"
  from a have c: "continues w (run evs w)" using continues_run by blast
  from a have "inSync (run evs w)" by (simp add: inSync_run)
  with a have e: "persisted w = state w" "persisted (run evs w) = state (run evs w)"
    by (simp_all add: inSync_def)
  from c b show "user (persisted (run evs w)) \<noteq> None"
    by (simp add: e continues_def)
qed

theorem logout_clears_then_rescans_witness:
  "selectorPass (querySelector portalPage) selectors = Some ''Asha'' \<and>
   user (state (snd (handleLogout portalPage askedWorld))) = Some ''Asha'' \<and>
   selectorPass (querySelector headerLogoutPage) selectors = None \<and>
   heuristicPass (iconButtons headerLogoutPage) = Inr (Some ''Ravi Kumar'') \<and>
   user (state (snd (handleLogout headerLogoutPage askedWorld))) = Some ''Ravi Kumar'' \<and>
   selectorPass (querySelector classlessLogoutPage) selectors = None \<and>
   heuristicPass (iconButtons classlessLogoutPage) = Inl SyntaxError \<and>
   handleLogout classlessLogoutPage askedWorld = (Some SyntaxError, loggedOut askedWorld) \<and>
   messages (state askedWorld) \<noteq> [] \<and>
   messages (state (snd (handleLogout portalPage askedWorld))) = [] \<and>
   inSync askedWorld \<and>
   prefix (messages (state askedWorld))
     (messages (state (run [ToggleClick, MouseDown grab, MouseMove pull, MouseUp,
                            Mutation portalPage, FetchSettled NetworkError] askedWorld))) \<and>
   user (state (run [ToggleClick, MouseDown grab, MouseMove pull, MouseUp,
                     Mutation portalPage, FetchSettled NetworkError] askedWorld)) \<noteq> None \<and>
   prefix (messages (persisted askedWorld))
     (messages (persisted (run [ToggleClick, MouseDown grab, MouseMove pull, MouseUp,
                                Mutation portalPage, FetchSettled NetworkError] askedWorld))) \<and>
   user (persisted (run [ToggleClick, MouseDown grab, MouseMove pull, MouseUp,
                         Mutation portalPage, FetchSettled NetworkError] askedWorld)) \<noteq> None"
proof -
  let ?evs = "[ToggleClick, MouseDown grab, MouseMove pull, MouseUp, Mutation portalPage,
               FetchSettled NetworkError]"
  have a: "messages (state askedWorld) \<noteq> []" "user (state askedWorld) \<noteq> None"
    "user (persisted askedWorld) \<noteq> None" "inSync askedWorld" by code_simp+
  have s1: "selectorPass (querySelector portalPage) selectors = Some ''Asha''" by code_simp
  have s2: "selectorPass (querySelector headerLogoutPage) selectors = None \<and>
    heuristicPass (iconButtons headerLogoutPage) = Inr (Some ''Ravi Kumar'')" by code_simp
  have s3: "selectorPass (querySelector classlessLogoutPage) selectors = None \<and>
    heuristicPass (iconButtons classlessLogoutPage) = Inl SyntaxError" by code_simp
  have c: "\<forall>ev\<in>set ?evs. \<not> isLogoutClick ev" by simp
  from logout_clears_then_rescans
         [where p = portalPage and w = askedWorld and n = "''Asha''" and evs = ?evs] s1 a c
  have 1: "user (state (snd (handleLogout portalPage askedWorld))) = Some ''Asha'' \<and>
     messages (state (snd (handleLogout portalPage askedWorld))) = [] \<and>
     continues askedWorld (run ?evs askedWorld) \<and>
     prefix (messages (persisted askedWorld)) (messages (persisted (run ?evs askedWorld))) \<and>
     user (persisted (run ?evs askedWorld)) \<noteq> None"
    by blast
  from logout_clears_then_rescans
         [where p = headerLogoutPage and w = askedWorld and n = "''Ravi Kumar''"] s2
  have 2: "user (state (snd (handleLogout headerLogoutPage askedWorld))) = Some ''Ravi Kumar''"
    by blast
  from logout_clears_then_rescans
         [where p = classlessLogoutPage and w = askedWorld and e = SyntaxError] s3
  have 3: "handleLogout classlessLogoutPage askedWorld = (Some SyntaxError, loggedOut askedWorld)"
    by blast
  from 1 have 4: "prefix (messages (state askedWorld)) (messages (state (run ?evs askedWorld))) \<and>
     user (state (run ?evs askedWorld)) \<noteq> None"
    using a by (simp add: continues_def)
  from a s1 s2 s3 1 2 3 4 show ?thesis by blast
qed

section \<open>Dragging\<close>

lemma drag_within:
  "isDragging w \<Longrightarrow> fits e \<Longrightarrow> withinViewport e (widgetStyle (drag e w))"
  by (simp add: drag_def fits_def withinViewport_def Let_def)

lemma drag_drag: "isDragging w \<Longrightarrow> drag e (drag e' w) = drag e w"
  by (simp add: drag_def Let_def)

lemma flags_drag [simp]:
  "isDragging (drag e w) = isDragging w" "dragListeners (drag e w) = dragListeners w"
  by (simp_all add: drag_def Let_def)

lemma moves_last:
  "isDragging w \<Longrightarrow> dragListeners w \<Longrightarrow> es \<noteq> [] \<Longrightarrow> moves es w = drag (last es) w"
proof (induction es arbitrary: w)
  case Nil
  then show ?case by simp
next
  case (Cons e es)
  show ?case
  proof (cases "es = []")
    case True
    with Cons.prems show ?thesis by (simp add: onMouseMove_def)
  next
    case False
    with Cons.prems have "moves es (drag e w) = drag (last es) (drag e w)"
      by (intro Cons.IH) simp_all
    with Cons.prems False show ?thesis by (simp add: onMouseMove_def drag_drag)
  qed
qed

lemma moves_frame:
  "state (moves es w) = state w \<and> storage (moves es w) = storage w \<and>
   isDragging (moves es w) = isDragging w \<and> dragListeners (moves es w) = dragListeners w"
  by (induction es arbitrary: w) (simp_all add: onMouseMove_def drag_def Let_def)

lemma dragStart_started:
  "\<not> onControl d \<Longrightarrow> inHandle d \<Longrightarrow>
   isDragging (dragStart d w) \<and> dragListeners (dragStart d w) \<and>
   state (dragStart d w) = state w \<and> storage (dragStart d w) = storage w"
  by (simp add: dragStart_def)

lemma dragSequence_state:
  assumes "\<not> onControl d" "inHandle d"
  shows "state (dragSequence d es w) =
           (state w)\<lparr>position :=
              \<lparr>pos_top = pos_top (widgetStyle (moves es (dragStart d w))),
               pos_left = pos_left (widgetStyle (moves es (dragStart d w))),
               pos_bottom = Auto, pos_right = Auto\<rparr>\<rparr>"
    and "storage (dragSequence d es w) = Some (state (dragSequence d es w))"
  using dragStart_started [OF assms, of w] moves_frame [of es "dragStart d w"]
  by (simp_all add: dragSequence_def onMouseUp_def dragEnd_def saveState_def Let_def)

text \<open>
  Claim C7. Each position computed by a move is clamped on both axes: when the widget
  fits the window, its left and top are at least 0 and at most the window's size minus
  the widget's. So after any drag with at least one move, the position of the widget,
  and the position recorded at release, lie in that range.
\<close>

theorem drag_keeps_widget_in_viewport:
  "(isDragging v \<and> fits e \<longrightarrow> withinViewport e (widgetStyle (drag e v))) \<and>
   (\<not> onControl d \<and> inHandle d \<and> es \<noteq> [] \<and> fits (last es) \<longrightarrow>
      withinViewport (last es) (widgetStyle (moves es (dragStart d w))) \<and>
      withinViewport (last es) (widgetStyle (dragSequence d es w)) \<and>
      withinViewport (last es) (position (state (dragSequence d es w))))"
proof (intro conjI impI)
  assume "isDragging v \<and> fits e"
  then show "withinViewport e (widgetStyle (drag e v))" by (simp add: drag_within)
next
  assume a: "\<not> onControl d \<and> inHandle d \<and> es \<noteq> [] \<and> fits (last es)"
  let ?w = "dragStart d w"
  from a have st: "isDragging ?w" "dragListeners ?w" using dragStart_started by blast+
  with a have m: "moves es ?w = drag (last es) ?w" by (simp add: moves_last)
  with a st show vp: "withinViewport (last es) (widgetStyle (moves es ?w))"
    by (simp add: drag_within)
  have l: "dragListeners (moves es ?w)" using st moves_frame [of es ?w] by simp
  then show "withinViewport (last es) (widgetStyle (dragSequence d es w))"
    using vp by (simp add: dragSequence_def onMouseUp_def dragEnd_def saveState_def Let_def)
  from a have s: "state (dragSequence d es w) =
           (state w)\<lparr>position :=
              \<lparr>pos_top = pos_top (widgetStyle (moves es ?w)),
               pos_left = pos_left (widgetStyle (moves es ?w)),
               pos_bottom = Auto, pos_right = Auto\<rparr>\<rparr>"
    by (simp add: dragSequence_state)
  from vp show "withinViewport (last es) (position (state (dragSequence d es w)))"
    unfolding s by (simp add: withinViewport_def)
qed

theorem drag_keeps_widget_in_viewport_witness:
  "isDragging (dragStart grab initialWorld) \<and> fits pull \<and>
   \<not> onControl grab \<and> inHandle grab \<and> [pull, pull] \<noteq> [] \<and> fits (last [pull, pull]) \<and>
   withinViewport pull (widgetStyle (drag pull (dragStart grab initialWorld))) \<and>
   withinViewport pull (position (state (dragSequence grab [pull, pull] initialWorld))) \<and>
   position (state (dragSequence grab [pull, pull] initialWorld)) =
     \<lparr>pos_top = Px 0, pos_left = Px 900, pos_bottom = Auto, pos_right = Auto\<rparr>"
proof -
  have h: "isDragging (dragStart grab initialWorld) \<and> fits pull" by code_simp
  have g: "\<not> onControl grab \<and> inHandle grab \<and> [pull, pull] \<noteq> [] \<and> fits (last [pull, pull])"
    by code_simp
  have p: "position (state (dragSequence grab [pull, pull] initialWorld)) =
     \<lparr>pos_top = Px 0, pos_left = Px 900, pos_bottom = Auto, pos_right = Auto\<rparr>" by code_simp
  from drag_keeps_widget_in_viewport
         [where v = "dragStart grab initialWorld" and e = pull and d = grab
            and es = "[pull, pull]" and w = initialWorld] h g p
  show ?thesis by simp
qed

subsection \<open>The store during a drag\<close>




section \<open>Pasting and the traces of failures\<close>

text \<open>A paste whose clipboard holds no image file starts no read and leaves the whole
  world as it was: the pending attachment is unchanged and nothing is shown.\<close>

lemma handlePaste_no_image:
  "\<forall>it\<in>set items. \<not> isImageFile it \<Longrightarrow> handlePaste items w = ([], w)"
  by (simp add: handlePaste_def filter_False)

text \<open>
  Claim C9 says more: that such a paste is the only failure without a trace for the
  user. The detection on the page with the logout link without a class fails without
  one. The exception changes nothing that is shown; no mutation and no timer ever change
  it; the identity stays unset, so the question typed into the opened widget is dropped
  by the guard of \<^verbatim>\<open>sendMessage\<close>, again without anything shown. The paste of
  something that is no image is silent on this page as on every other.
\<close>

theorem detection_failure_leaves_no_trace:
  "startUserDetection classlessLogoutPage initialWorld = (Some SyntaxError, initialWorld) \<and>
   run [Mutation classlessLogoutPage, Timer 0] initialWorld = initialWorld \<and>
   userDisplay strandedWorld = ''Online'' \<and>
   messagesDOM strandedWorld = [] \<and>
   user (state strandedWorld) = None \<and>
   sendMessage strandedWorld = strandedWorld \<and>
   handlePaste textClipboard strandedWorld = ([], strandedWorld)"
  by code_simp

section \<open>Failed requests\<close>

text \<open>
  Claim C1, as the specification words it, fails: the two failures are not presented
  alike. After an exception the entry carries the class of errors and the log is as it
  was; after a reply that is not a success the entry is an ordinary message of the bot,
  and that message is appended to the log and stored.
\<close>

theorem non_success_reply_is_logged_as_bot_message:
  "entryClass (last (messagesDOM (sendMessage_resume NetworkError askedWorld))) =
     ''tn-message tn-bot-message tn-error-message'' \<and>
   entryClass (last (messagesDOM (sendMessage_resume (Reply False ''bad request'') askedWorld))) =
     ''tn-message tn-bot-message'' \<and>
   messagesDOM (sendMessage_resume NetworkError askedWorld) \<noteq>
     messagesDOM (sendMessage_resume (Reply False ''bad request'') askedWorld) \<and>
   messages (state (sendMessage_resume NetworkError askedWorld)) = messages (state askedWorld) \<and>
   messages (state (sendMessage_resume (Reply False ''bad request'') askedWorld)) =
     messages (state askedWorld) @
       [\<lparr>msg_sender = Bot, msg_text = ''Sorry, I encountered an error. Please try again.'',
         msg_image = None\<rparr>] \<and>
   storage (sendMessage_resume (Reply False ''bad request'') askedWorld) \<noteq> storage askedWorld"
  by code_simp

text \<open>
  Claim C1, amended. An exception of the request shows one entry marked as an error and
  changes neither the message log nor the store. A reply that is not a success appends
  the fixed message \<open>Sorry, I encountered an error. Please try again.\<close> of the bot to
  the log, stores it, and shows it as an ordinary message of the bot; the text of the
  reply is not used. In neither case is a message appended that presents the request as
  answered.
\<close>

theorem transport_failures_are_shown:
  "state (sendMessage_resume NetworkError w) = state w \<and>
   storage (sendMessage_resume NetworkError w) = storage w \<and>
   messagesDOM (sendMessage_resume NetworkError w) =
     messagesDOM w @ [\<lparr>entryClass = ''tn-message tn-bot-message tn-error-message'',
                       children = [AvatarDiv WarningGlyph, ContentDiv connectErrorText]\<rparr>] \<and>
   messages (state (sendMessage_resume (Reply False r) w)) =
     messages (state w) @
       [\<lparr>msg_sender = Bot, msg_text = ''Sorry, I encountered an error. Please try again.'',
         msg_image = None\<rparr>] \<and>
   storage (sendMessage_resume (Reply False r) w) = Some (state (sendMessage_resume (Reply False r) w)) \<and>
   messagesDOM (sendMessage_resume (Reply False r) w) =
     messagesDOM w @ [\<lparr>entryClass = ''tn-message tn-bot-message'',
                       children = [AvatarDiv RobotGlyph,
                         ContentDiv [FormatBot ''Sorry, I encountered an error. Please try again.'']]\<rparr>]"
  by (simp add: sendMessage_resume_def addErrorMessage_def addMessage_def renderMessageToDOM_def
      messageContent_def saveState_def showTyping_def Let_def)

theorem transport_failures_are_shown_witness:
  "state (sendMessage_resume NetworkError askedWorld) = state askedWorld \<and>
   length (messagesDOM (sendMessage_resume NetworkError askedWorld)) = 2 \<and>
   length (messages (state (sendMessage_resume (Reply False ''bad request'') askedWorld))) = 2 \<and>
   length (messagesDOM (sendMessage_resume (Reply False ''bad request'') askedWorld)) = 2"
proof -
  have a: "length (messagesDOM askedWorld) = 1 \<and> length (messages (state askedWorld)) = 1"
    by code_simp
  from transport_failures_are_shown [of askedWorld "''bad request''"] a
  show ?thesis by simp
qed

section \<open>Rendering what the user wrote\<close>

lemma escapeHtml_Cons: "escapeHtml (c # cs) = escapeChar c @ escapeHtml cs"
  by (simp add: escapeHtml_def)

lemma shownText_escapeHtml: "shownText (escapeHtml t) = t"
proof (induction t)
  case Nil
  show ?case by (simp add: escapeHtml_def)
next
  case (Cons c cs)
  then show ?case by (simp add: escapeHtml_Cons escapeChar_def)
qed

lemma no_markup_in_escapeHtml:
  "CHR ''<'' \<notin> set (escapeHtml t) \<and> CHR ''>'' \<notin> set (escapeHtml t)"
proof (induction t)
  case Nil
  show ?case by (simp add: escapeHtml_def)
next
  case (Cons c cs)
  then show ?case by (simp add: escapeHtml_Cons escapeChar_def)
qed

text \<open>
  Claim C2. The text of a message of the user is escaped before it is inserted: the
  markup of its entry is the escaped text between \<open><div>\<close> and \<open></div>\<close>, after the
  image if there is one. The escaped text has no angle bracket left, and the browser
  shows it as the very text that was written. A send puts the trimmed input through this
  path.
\<close>

theorem user_text_is_escaped:
  \<open>messageContent txt True None =
     (if txt = [] then [] else [Html (''<div>'' @ escapeHtml txt @ ''</div>'')]) \<and>
   messageContent txt True (Some (s # src)) =
     Html (''<img src="'' @ s # src @ ''" class="tn-message-image" />'') #
     messageContent txt True None \<and>
   CHR ''<'' \<notin> set (escapeHtml txt) \<and> CHR ''>'' \<notin> set (escapeHtml txt) \<and>
   shownText (escapeHtml txt) = txt \<and>
   messagesDOM (renderMessageToDOM txt True img w) =
     messagesDOM w @ [\<lparr>entryClass = ''tn-message tn-user-message'',
                       children = [ContentDiv (messageContent txt True img),
                                   AvatarDiv BustGlyph]\<rparr>] \<and>
   (truthy (user (state w)) \<and> trim (inputValue w) \<noteq> [] \<and> pendingImage w = None \<longrightarrow>
      messagesDOM (sendMessage w) =
        messagesDOM w @ [\<lparr>entryClass = ''tn-message tn-user-message'',
                          children = [ContentDiv [Html (''<div>'' @ escapeHtml (trim (inputValue w))
                                                         @ ''</div>'')],
                                      AvatarDiv BustGlyph]\<rparr>])\<close>
proof (intro conjI impI)
  show "messageContent txt True None =
     (if txt = [] then [] else [Html (''<div>'' @ escapeHtml txt @ ''</div>'')])"
    by (simp add: messageContent_def)
  show \<open>messageContent txt True (Some (s # src)) =
     Html (''<img src="'' @ s # src @ ''" class="tn-message-image" />'') #
     messageContent txt True None\<close>
    by (simp add: messageContent_def)
  show "CHR ''<'' \<notin> set (escapeHtml txt)" "CHR ''>'' \<notin> set (escapeHtml txt)"
    using no_markup_in_escapeHtml by blast+
  show "shownText (escapeHtml txt) = txt" by (rule shownText_escapeHtml)
  show "messagesDOM (renderMessageToDOM txt True img w) =
     messagesDOM w @ [\<lparr>entryClass = ''tn-message tn-user-message'',
                       children = [ContentDiv (messageContent txt True img),
                                   AvatarDiv BustGlyph]\<rparr>]"
    by (simp add: renderMessageToDOM_def Let_def)
next
  assume "truthy (user (state w)) \<and> trim (inputValue w) \<noteq> [] \<and> pendingImage w = None"
  then show "messagesDOM (sendMessage w) =
        messagesDOM w @ [\<lparr>entryClass = ''tn-message tn-user-message'',
                          children = [ContentDiv [Html (''<div>'' @ escapeHtml (trim (inputValue w))
                                                         @ ''</div>'')],
                                      AvatarDiv BustGlyph]\<rparr>]"
    by (simp add: sendMessage_def addMessage_def renderMessageToDOM_def messageContent_def
        saveState_def showTyping_def Let_def)
qed

theorem user_text_is_escaped_witness:
  "truthy (user (state markupWorld)) \<and> trim (inputValue markupWorld) \<noteq> [] \<and>
   pendingImage markupWorld = None \<and>
   escapeHtml (trim (inputValue markupWorld)) = ''&lt;b&gt;hi&lt;/b&gt;'' \<and>
   shownText ''&lt;b&gt;hi&lt;/b&gt;'' = ''<b>hi</b>'' \<and>
   messagesDOM (sendMessage markupWorld) =
     [\<lparr>entryClass = ''tn-message tn-user-message'',
       children = [ContentDiv [Html ''<div>&lt;b&gt;hi&lt;/b&gt;</div>''],
                   AvatarDiv BustGlyph]\<rparr>]"
proof -
  have a: "truthy (user (state markupWorld)) \<and> trim (inputValue markupWorld) \<noteq> [] \<and>
   pendingImage markupWorld = None" by code_simp
  have b: "escapeHtml (trim (inputValue markupWorld)) = ''&lt;b&gt;hi&lt;/b&gt;''" by code_simp
  have c: "trim (inputValue markupWorld) = ''<b>hi</b>''" by code_simp
  have d: "messagesDOM markupWorld = []" by code_simp
  from user_text_is_escaped [of "''<b>hi</b>''" "CHR ''x''" "[]" None markupWorld] a b c d
  show ?thesis by simp
qed

end
